theory Spec2Isabelle
  imports Main "HOL-Library.Word" "HOL-Library.Signed_Division"
begin

section \<open>Entries and the external collaborators\<close>

text \<open>
  Two ingesters are embedded: the Kinesis stream ingester (per-shard consumer, checkpoint
  store \<open>stateman\<close>, \<open>shardMetrics\<close>, metrics reporter) and the SQS queue ingester
  (\<open>queueRunner\<close>). Go strings that hold payload bytes are byte lists; identifiers and
  sequence numbers are \<open>string\<close>. Go's \<open>int64\<close>/\<open>uint64\<close> are \<open>64 word\<close> (read signed
  with \<open>sint\<close> where the source type is signed).
\<close>

type_synonym bytes = "8 word list"

text \<open>Go's \<open>time.Time\<close>, an instant.\<close>

datatype Time = Time (unix_nanos: int)

text \<open>
  Modelled from the spec: \<open>entry.Timestamp\<close> and \<open>entry.Entry\<close> live in the \<open>ingest/entry\<close>
  package, which is not among the sources. A LogEntry is
  \<open>{tag, sourceAddress: optional, timestamp, payload}\<close>; the timestamp is a pair of integers
  whose Go zero value is the "zero/absent" timestamp.
\<close>

datatype Timestamp = Timestamp (Sec: int) (Nsec: int)

definition zero_Timestamp :: Timestamp where
  "zero_Timestamp = Timestamp 0 0"

record Entry =
  TS :: Timestamp
  SRC :: "bytes option"
  Tag :: "16 word"
  Data :: bytes

datatype level = Info | Warn | Error

datatype error = AwsErr (err_Code: string) (err_Message: string) | PlainErr string

datatype panic = NilDereference | IntegerDivideByZero

text \<open>
  The functions of other packages that the two programs call. They are parameters of the
  model: \<open>tg.Extract\<close> and \<open>ProcessContext\<close>/\<open>Close\<close> of the processor set are stateful, so
  they take and return the collaborator's state (\<open>'g\<close>, \<open>'p\<close>); the booleans are
  "\<open>err != nil\<close>" (and \<open>ok\<close> for \<open>Extract\<close>). \<open>Now k\<close> is the clock reading of the
  \<open>k\<close>-th call of \<open>entry.Now()\<close>. \<open>ParseInt\<close> is \<open>strconv.ParseInt(_, 10, 64)\<close>,
  \<open>None\<close> when it returns an error.
\<close>

record ('p, 'g) deps =
  FromStandard :: "Time \<Rightarrow> Timestamp"
  UnixTime :: "int \<Rightarrow> int \<Rightarrow> Timestamp"
  Now :: "nat \<Rightarrow> Timestamp"
  ParseInt :: "string \<Rightarrow> int option"
  Extract :: "'g \<Rightarrow> bytes \<Rightarrow> 'g \<times> Time \<times> bool \<times> bool"
  ProcessContext :: "'p \<Rightarrow> Entry \<Rightarrow> 'p \<times> bool"
  Size :: "Entry \<Rightarrow> 64 word"
  Close :: "'p \<Rightarrow> 'p \<times> bool"

section \<open>Requests, responses and the observable trace\<close>

record GetShardIteratorInput =
  gsii_ShardId :: string
  gsii_StreamName :: string
  gsii_ShardIteratorType :: string
  gsii_StartingSequenceNumber :: "string option"

record GetShardIteratorOutput =
  ShardIterator :: "string option"

record GetRecordsInput =
  Limit :: nat
  gri_ShardIterator :: string

text \<open>
  A Kinesis record. The three fields are dereferenced unconditionally by the consumer
  (\<open>*r.SequenceNumber\<close>, \<open>*r.ApproximateArrivalTimestamp\<close>), so they are present here.
\<close>

record Record =
  SequenceNumber :: string
  ApproximateArrivalTimestamp :: Time
  Data :: bytes

record GetRecordsOutput =
  Records :: "Record list"
  NextShardIterator :: "string option"
  MillisBehindLatest :: "64 word"

record SequenceNumberRange =
  StartingSequenceNumber :: "string option"
  EndingSequenceNumber :: "string option"

record Shard =
  ShardId :: string
  SequenceNumberRange :: "SequenceNumberRange option"

record Message =
  Body :: bytes
  Attributes :: "string \<rightharpoonup> string"

record ReceiveMessageOutput =
  Messages :: "Message list"

text \<open>
  What a task does to the outside, in order: calls of the source service, sleeps (in
  milliseconds), log lines, calls of the time extractor (with the \<open>ok\<close> and \<open>err != nil\<close> it
  returned), entries handed to the processor (\<open>EvProcess r e\<close>: the entry \<open>e\<close>, built from
  the raw record or message \<open>r\<close>, is passed to \<open>ProcessContext\<close>), checkpoint writes
  (\<open>UpdateSequenceNum stream shard seq\<close>) and the closing of the processor set.
\<close>

datatype 'r event =
    EvGetShardIterator GetShardIteratorInput
  | EvGetRecords GetRecordsInput
  | EvReceiveMessage string
  | EvSleep nat
  | EvLog level string
  | EvExtract bytes bool bool
  | EvProcess 'r Entry
  | EvUpdateSequenceNum string string string
  | EvClose

section \<open>The SQS queue consumer\<close>

record handlerConfig =
  queue :: string
  tag :: "16 word"
  ignoreTimestamps :: bool
  src :: "bytes option"

datatype qloc = QRunning | QReturned

text \<open>
  The task: whether \<open>queueRunner\<close> is still in its loop or has returned, the processor
  set \<open>hcfg.proc\<close>, the number of clock readings taken so far, and the trace.
\<close>

record 'p queue_task =
  qloc :: qloc
  proc :: 'p
  nowcalls :: nat
  qtrace :: "Message event list"

text \<open>
  The timestamp of a message (\<open>var ts entry.Timestamp\<close> and the \<open>if\<close> that follows it in
  the body of \<open>for _, v := range out.Messages\<close>). \<open>ts\<close> starts as the zero value and
  stays so on the two logged paths. \<open>ut/1000\<close> is Go's integer division, which truncates
  towards zero (\<open>sdiv\<close>).
\<close>

definition message_ts ::
  "('p, 'g) deps \<Rightarrow> handlerConfig \<Rightarrow> Message \<Rightarrow> 'p queue_task \<Rightarrow> 'p queue_task \<times> Timestamp" where
  "message_ts deps hcfg v s =
    (if \<not> ignoreTimestamps hcfg then
       (case Attributes v ''SentTimestamp'' of
          None \<Rightarrow>
            (s\<lparr>qtrace := qtrace s @
                 [EvLog Error ''SQS did not provide timestamp for message'']\<rparr>,
             zero_Timestamp)
        | Some t \<Rightarrow>
            (case ParseInt deps t of
               None \<Rightarrow>
                 (s\<lparr>qtrace := qtrace s @ [EvLog Error ''parseint on unix time'']\<rparr>,
                  zero_Timestamp)
             | Some ut \<Rightarrow> (s, UnixTime deps (ut sdiv 1000) 0)))
     else (s\<lparr>nowcalls := Suc (nowcalls s)\<rparr>, Now deps (nowcalls s)))"

text \<open>
  The body of \<open>for _, v := range out.Messages\<close>: build the entry, hand it to the
  processor; a processor error is logged and ends \<open>queueRunner\<close>.
\<close>

definition handle_message ::
  "('p, 'g) deps \<Rightarrow> handlerConfig \<Rightarrow> Message \<Rightarrow> 'p queue_task \<Rightarrow> 'p queue_task" where
  "handle_message deps hcfg v s =
    (let msg = Body v;
         (s1, ts) = message_ts deps hcfg v s;
         ent = \<lparr>TS = ts, SRC = src hcfg, Tag = tag hcfg, Data = msg\<rparr>;
         (p, err) = ProcessContext deps (proc s1) ent;
         s2 = s1\<lparr>proc := p, qtrace := qtrace s1 @ [EvProcess v ent]\<rparr>
     in if err
        then s2\<lparr>qtrace := qtrace s2 @ [EvLog Error ''Sending message''], qloc := QReturned\<rparr>
        else s2)"

fun handle_messages ::
  "('p, 'g) deps \<Rightarrow> handlerConfig \<Rightarrow> Message list \<Rightarrow> 'p queue_task \<Rightarrow> 'p queue_task" where
  "handle_messages deps hcfg [] s = s"
| "handle_messages deps hcfg (v # vs) s =
     (let s1 = handle_message deps hcfg v s
      in if qloc s1 = QReturned then s1 else handle_messages deps hcfg vs s1)"

text \<open>
  One turn of the outer \<open>for\<close> of \<open>queueRunner\<close>, driven by what the outside answers:
  \<open>req.Validate()\<close> fails, \<open>ReceiveMessage\<close> fails (the goroutine sends \<open>nil\<close>), the
  \<open>done\<close> channel is closed first, or a \<open>ReceiveMessageOutput\<close> arrives.
\<close>

datatype qinput = ValidateError | ReceiveError | DoneClosed | Received ReceiveMessageOutput

definition queue_turn ::
  "('p, 'g) deps \<Rightarrow> handlerConfig \<Rightarrow> 'p queue_task \<Rightarrow> qinput \<Rightarrow> 'p queue_task" where
  "queue_turn deps hcfg s inp =
    (if qloc s = QReturned then s
     else case inp of
       ValidateError \<Rightarrow>
         s\<lparr>qtrace := qtrace s @ [EvLog Error ''sqs request validation''], qloc := QReturned\<rparr>
     | ReceiveError \<Rightarrow>
         s\<lparr>qtrace := qtrace s @
              [EvReceiveMessage (queue hcfg), EvLog Error ''sqs receive message''],
           qloc := QReturned\<rparr>
     | DoneClosed \<Rightarrow>
         s\<lparr>qtrace := qtrace s @ [EvReceiveMessage (queue hcfg)], qloc := QReturned\<rparr>
     | Received out \<Rightarrow>
         handle_messages deps hcfg (Messages out)
           (s\<lparr>qtrace := qtrace s @ [EvReceiveMessage (queue hcfg)]\<rparr>))"

definition queueRunner ::
  "('p, 'g) deps \<Rightarrow> handlerConfig \<Rightarrow> 'p queue_task \<Rightarrow> qinput list \<Rightarrow> 'p queue_task" where
  "queueRunner deps hcfg s inps = foldl (queue_turn deps hcfg) s inps"

section \<open>The checkpoint store\<close>

type_synonym seqmap = "string \<rightharpoonup> (string \<rightharpoonup> string)"

text \<open>
  \<open>states\<close> is the in-memory map (stream name to shard name to sequence number);
  \<open>stateFile\<close> is the content of the state file on stable storage.
\<close>

record stateman =
  states :: seqmap
  stateFile :: seqmap

text \<open>
  Modelled from the spec: \<open>utils.State.Write\<close> is not among the sources. The spec's
  \<open>flush()\<close> "persists the full mapping" and the file "is rewritten wholesale on each
  flush": after a write the file holds exactly the map written.
\<close>

definition State_Write :: "seqmap \<Rightarrow> seqmap \<Rightarrow> seqmap" where
  "State_Write file m = m"

definition Flush :: "stateman \<Rightarrow> stateman" where
  "Flush s = s\<lparr>stateFile := State_Write (stateFile s) (states s)\<rparr>"

text \<open>Reading a Go \<open>map[string]string\<close>: a missing key (or a nil map) reads as \<open>""\<close>.\<close>

definition map_read :: "(string \<rightharpoonup> string) option \<Rightarrow> string \<Rightarrow> string" where
  "map_read m k = (case m of None \<Rightarrow> '''' | Some f \<Rightarrow> (case f k of None \<Rightarrow> '''' | Some v \<Rightarrow> v))"

definition init_stream :: "stateman \<Rightarrow> string \<Rightarrow> stateman" where
  "init_stream s stream =
     (if states s stream = None then s\<lparr>states := (states s)(stream \<mapsto> Map.empty)\<rparr> else s)"

definition UpdateSequenceNum :: "stateman \<Rightarrow> string \<Rightarrow> string \<Rightarrow> string \<Rightarrow> stateman" where
  "UpdateSequenceNum s stream shard seq =
     (let s1 = init_stream s stream
      in s1\<lparr>states := (states s1)(stream \<mapsto>
            (case states s1 stream of None \<Rightarrow> Map.empty | Some f \<Rightarrow> f)(shard \<mapsto> seq))\<rparr>)"

definition GetSequenceNum :: "stateman \<Rightarrow> string \<Rightarrow> string \<Rightarrow> string \<times> stateman" where
  "GetSequenceNum s stream shard =
     (let s1 = init_stream s stream
      in (map_read (states s1 stream) shard, s1))"

section \<open>Shard metrics\<close>

record shardMetrics =
  Disabled :: bool
  millisbehind :: "64 word"
  datasize :: "64 word"
  entrysize :: "64 word"
  requests :: "64 word"

definition Update :: "shardMetrics \<Rightarrow> GetRecordsOutput \<Rightarrow> 64 word \<Rightarrow> shardMetrics" where
  "Update s res entrySize =
     (if Disabled s then s
      else s\<lparr>millisbehind := MillisBehindLatest res,
             requests := requests s + 1,
             datasize := datasize s + of_nat (sum_list (map (\<lambda>r. length (Data r)) (Records res))),
             entrysize := entrysize s + entrySize\<rparr>)"

definition ReadAndReset ::
  "shardMetrics \<Rightarrow> (64 word \<times> 64 word \<times> 64 word \<times> 64 word) \<times> shardMetrics" where
  "ReadAndReset s =
     ((millisbehind s, datasize s, entrysize s, requests s),
      s\<lparr>datasize := 0, entrysize := 0, requests := 0\<rparr>)"

section \<open>The metrics reporter\<close>

record streamDef =
  Stream_Name :: string
  Iterator_Type :: string
  Parse_Time :: bool
  Metrics_Interval :: int
  JSON_Metrics :: bool

record metricsReport =
  StreamName :: string
  ShardCount :: int
  AverageLag :: "64 word"
  CompressedDataSize :: "64 word"
  EntryDataSize :: "64 word"
  KinesisRequests :: "64 word"

text \<open>The test of the shard loop: a shard whose range has an ending sequence number is closed.\<close>

definition shard_closed :: "Shard \<Rightarrow> bool" where
  "shard_closed sh =
     (case SequenceNumberRange sh of
        None \<Rightarrow> False
      | Some rg \<Rightarrow> EndingSequenceNumber rg \<noteq> None)"

text \<open>
  \<open>metricsTrackers\<close> once every spawned shard goroutine has appended its tracker: one
  \<open>shardMetrics\<close> per shard that is not skipped as closed, disabled when the interval is 0.
\<close>

definition new_tracker :: "streamDef \<Rightarrow> shardMetrics" where
  "new_tracker stream =
     \<lparr>Disabled = (Metrics_Interval stream = 0), millisbehind = 0, datasize = 0,
      entrysize = 0, requests = 0\<rparr>"

definition spawned_trackers :: "streamDef \<Rightarrow> Shard list \<Rightarrow> shardMetrics list" where
  "spawned_trackers stream shards =
     map (\<lambda>sh. new_tracker stream) (filter (\<lambda>sh. \<not> shard_closed sh) shards)"

text \<open>The loop \<open>for i := range metricsTrackers\<close> of the reporter: drain and add up.\<close>

fun drain :: "shardMetrics list \<Rightarrow> metricsReport \<Rightarrow> metricsReport \<times> shardMetrics list" where
  "drain [] report = (report, [])"
| "drain (t # ts) report =
     (case ReadAndReset t of
        ((l, b, e, r), t') \<Rightarrow>
          (case drain ts
                  (report\<lparr>AverageLag := AverageLag report + l,
                          CompressedDataSize := CompressedDataSize report + b,
                          EntryDataSize := EntryDataSize report + e,
                          KinesisRequests := KinesisRequests report + r\<rparr>) of
             (report', ts') \<Rightarrow> (report', t' # ts')))"

text \<open>
  Go's \<open>int64\<close> division: truncated towards zero on the signed readings. The caller checks
  the divisor, since in Go a zero divisor is the run-time panic "integer divide by zero".
\<close>

definition int64_div :: "64 word \<Rightarrow> 64 word \<Rightarrow> 64 word" where
  "int64_div a b = word_of_int (sint a sdiv sint b)"

text \<open>
  One firing of the reporter's timer (the goroutine only exists when
  \<open>Metrics_Interval > 0\<close>): the report and the drained trackers, or the panic of the
  division \<open>report.AverageLag / int64(len(metricsTrackers))\<close>.
\<close>

definition report_tick ::
  "streamDef \<Rightarrow> Shard list \<Rightarrow> shardMetrics list \<Rightarrow> panic + metricsReport \<times> shardMetrics list" where
  "report_tick stream shards metricsTrackers =
     (case drain metricsTrackers
             \<lparr>StreamName = Stream_Name stream, ShardCount = int (length shards),
              AverageLag = 0, CompressedDataSize = 0, EntryDataSize = 0,
              KinesisRequests = 0\<rparr> of
        (report, trackers') \<Rightarrow>
          if (of_nat (length metricsTrackers) :: 64 word) = 0 then Inl IntegerDivideByZero
          else Inr (report\<lparr>AverageLag :=
                       int64_div (AverageLag report) (of_nat (length metricsTrackers))\<rparr>,
                    trackers'))"

section \<open>The per-shard consumer\<close>

text \<open>
  Where the shard goroutine stands between two answers of the outside: about to run the
  body of \<open>reconnectLoop\<close> (\<open>Acquiring\<close>), at the head of \<open>for running\<close> (\<open>LoopHead\<close>),
  inside the retry loop around \<open>svc.GetRecords(gri)\<close> (\<open>Fetching\<close>), past the final
  \<open>break\<close> (\<open>Closed\<close>), or stopped by a nil dereference (\<open>Panicked\<close>). \<open>LoopHead\<close> and
  \<open>Fetching\<close> together are the spec's Streaming state.
\<close>

datatype loc = Acquiring | LoopHead | Fetching | Closed | Panicked

text \<open>
  The variables of the goroutine (\<open>stream\<close> is its own copy of the stream definition, so
  \<open>stream.Parse_Time = false\<close> is local to the shard), the shared \<open>stateMan\<close>, and the
  trace. The set-up before \<open>reconnectLoop\<close> (time grinder, source override, processor
  set, tracker) is the initial value of these fields; \<open>debugout\<close> lines are left out.
\<close>

record ('p, 'g) consumer =
  loc :: loc
  stream :: streamDef
  shard :: Shard
  tagid :: "16 word"
  src :: "bytes option"
  tg :: 'g
  procset :: 'p
  tracker :: shardMetrics
  iter :: string
  gri :: GetRecordsInput
  lastSeqNum :: string
  entrySize :: "64 word"
  stateMan :: stateman
  trace :: "Record event list"

definition ErrCodeProvisionedThroughputExceededException :: string where
  "ErrCodeProvisionedThroughputExceededException = ''ProvisionedThroughputExceededException''"

definition ErrCodeExpiredIteratorException :: string where
  "ErrCodeExpiredIteratorException = ''ExpiredIteratorException''"

text \<open>The request \<open>gsii\<close> built at the top of \<open>reconnectLoop\<close> from the token read.\<close>

definition make_gsii :: "streamDef \<Rightarrow> Shard \<Rightarrow> string \<Rightarrow> GetShardIteratorInput" where
  "make_gsii strm sh seqnum =
     (if seqnum = ''''
      then \<lparr>gsii_ShardId = ShardId sh, gsii_StreamName = Stream_Name strm,
            gsii_ShardIteratorType = Iterator_Type strm,
            gsii_StartingSequenceNumber = None\<rparr>
      else \<lparr>gsii_ShardId = ShardId sh, gsii_StreamName = Stream_Name strm,
            gsii_ShardIteratorType = ''AFTER_SEQUENCE_NUMBER'',
            gsii_StartingSequenceNumber = Some seqnum\<rparr>)"

text \<open>
  One pass through the top of \<open>reconnectLoop\<close>, given what \<open>svc.GetShardIterator\<close> returns
  (\<open>output\<close>, \<open>err\<close>): back to the top after 5 s on an error or a nil iterator, else on to
  \<open>for running\<close> with a fresh \<open>lastSeqNum\<close>.
\<close>

definition reconnect ::
  "('p, 'g) consumer \<Rightarrow> GetShardIteratorOutput option \<Rightarrow> error option \<Rightarrow> ('p, 'g) consumer" where
  "reconnect s output err =
     (case GetSequenceNum (stateMan s) (Stream_Name (stream s)) (ShardId (shard s)) of
        (seqnum, sm) \<Rightarrow>
          (let s1 = s\<lparr>stateMan := sm,
                      trace := trace s @
                        [EvGetShardIterator (make_gsii (stream s) (shard s) seqnum)]\<rparr>
           in case err of
                Some e \<Rightarrow>
                  s1\<lparr>trace := trace s1 @ [EvLog Error ''error on shard'', EvSleep 5000]\<rparr>
              | None \<Rightarrow>
                  (case output of
                     None \<Rightarrow> s1\<lparr>loc := Panicked\<rparr>
                   | Some out \<Rightarrow>
                       (case ShardIterator out of
                          None \<Rightarrow>
                            s1\<lparr>trace := trace s1 @
                                 [EvLog Error
                                    ''Got nil initial shard iterator, sleeping and retrying'',
                                  EvSleep 5000]\<rparr>
                        | Some it \<Rightarrow> s1\<lparr>iter := it, lastSeqNum := '''', loc := LoopHead\<rparr>))))"

text \<open>
  The head of \<open>for running\<close>, given the value read from the shared flag: build \<open>gri\<close> from
  the current iterator, or leave the loop, close the processor set and end.
\<close>

definition loop_head :: "('p, 'g) deps \<Rightarrow> ('p, 'g) consumer \<Rightarrow> bool \<Rightarrow> ('p, 'g) consumer" where
  "loop_head deps s running =
     (if running
      then s\<lparr>gri := \<lparr>Limit = 5000, gri_ShardIterator = iter s\<rparr>, loc := Fetching\<rparr>
      else (case Close deps (procset s) of
              (p, cerr) \<Rightarrow>
                s\<lparr>procset := p, loc := Closed,
                  trace := trace s @ [EvClose] @
                    (if cerr then [EvLog Error ''Failed to close processor set''] else [])\<rparr>))"

text \<open>The body of \<open>for _, r := range res.Records\<close>.\<close>

definition handle_record ::
  "('p, 'g) deps \<Rightarrow> Record \<Rightarrow> ('p, 'g) consumer \<Rightarrow> ('p, 'g) consumer" where
  "handle_record deps r s =
     (let s1 = s\<lparr>lastSeqNum := SequenceNumber r\<rparr>;
          ent = \<lparr>TS = zero_Timestamp, SRC = src s1, Tag = tagid s1, Data = Data r\<rparr>;
          (s2, ent) =
            (if Parse_Time (stream s1) = False
             then (s1, ent\<lparr>TS := FromStandard deps (ApproximateArrivalTimestamp r)\<rparr>)
             else (case Extract deps (tg s1) (Entry.Data ent) of
                     (g, ts, ok, err) \<Rightarrow>
                       (let s1' = s1\<lparr>tg := g,
                                     trace := trace s1 @ [EvExtract (Entry.Data ent) ok err]\<rparr>
                        in if \<not> ok \<or> err
                           then (s1'\<lparr>stream := (stream s1')\<lparr>Parse_Time := False\<rparr>\<rparr>,
                                 ent\<lparr>TS := FromStandard deps (ApproximateArrivalTimestamp r)\<rparr>)
                           else (s1', ent\<lparr>TS := FromStandard deps ts\<rparr>))));
          (p, perr) = ProcessContext deps (procset s2) ent;
          s3 = s2\<lparr>procset := p,
                  trace := trace s2 @ [EvProcess r ent] @
                    (if perr then [EvLog Error ''Failed to handle entry''] else [])\<rparr>
      in s3\<lparr>entrySize := entrySize s3 + Size deps ent\<rparr>)"

fun handle_records ::
  "('p, 'g) deps \<Rightarrow> Record list \<Rightarrow> ('p, 'g) consumer \<Rightarrow> ('p, 'g) consumer" where
  "handle_records deps [] s = s"
| "handle_records deps (r # rs) s = handle_records deps rs (handle_record deps r s)"

text \<open>
  After the record loop: \<open>tracker.Update(res, entrySize)\<close>, then the guarded checkpoint
  write, then back to the head of \<open>for running\<close>.
\<close>

definition finish_batch :: "GetRecordsOutput \<Rightarrow> ('p, 'g) consumer \<Rightarrow> ('p, 'g) consumer" where
  "finish_batch res s =
     (let s1 = s\<lparr>tracker := Update (tracker s) res (entrySize s)\<rparr>;
          s2 = (if lastSeqNum s1 \<noteq> ''''
                then s1\<lparr>stateMan := UpdateSequenceNum (stateMan s1) (Stream_Name (stream s1))
                                      (ShardId (shard s1)) (lastSeqNum s1),
                        trace := trace s1 @
                          [EvUpdateSequenceNum (Stream_Name (stream s1)) (ShardId (shard s1))
                             (lastSeqNum s1)]\<rparr>
                else s1)
      in s2\<lparr>loc := LoopHead\<rparr>)"

text \<open>
  One turn of the retry loop around \<open>svc.GetRecords(gri)\<close>, given what the call returns
  (\<open>res\<close>, \<open>err\<close>). The request \<open>gri\<close> was built before the retry loop and is not rebuilt
  inside it; \<open>iter\<close> follows \<open>res.NextShardIterator\<close> whenever that is present. Without an
  error the batch is consumed (a nil \<open>res\<close> then is a nil dereference at
  \<open>len(res.Records)\<close>).
\<close>

definition fetch ::
  "('p, 'g) deps \<Rightarrow> ('p, 'g) consumer \<Rightarrow> GetRecordsOutput option \<Rightarrow> error option \<Rightarrow>
   ('p, 'g) consumer" where
  "fetch deps s res err =
     (let s0 = s\<lparr>trace := trace s @ [EvGetRecords (gri s)]\<rparr>;
          s1 = (case res of
                  None \<Rightarrow> s0
                | Some out \<Rightarrow>
                    (case NextShardIterator out of None \<Rightarrow> s0 | Some n \<Rightarrow> s0\<lparr>iter := n\<rparr>))
      in case err of
           Some e \<Rightarrow>
             (case e of
                AwsErr code msg \<Rightarrow>
                  if code = ErrCodeProvisionedThroughputExceededException
                  then s1\<lparr>trace := trace s1 @
                            [EvLog Warn ''Throughput exceeded, trying again'', EvSleep 500]\<rparr>
                  else if code = ErrCodeExpiredIteratorException
                  then s1\<lparr>trace := trace s1 @
                            [EvLog Info ''Iterator expired, re-initializing'', EvSleep 100],
                          loc := Acquiring\<rparr>
                  else s1\<lparr>trace := trace s1 @ [EvLog Error (code @ '': '' @ msg), EvSleep 500]\<rparr>
              | PlainErr m \<Rightarrow> s1\<lparr>trace := trace s1 @ [EvLog Error ''unknown error'']\<rparr>)
         | None \<Rightarrow>
             (case res of
                None \<Rightarrow> s1\<lparr>loc := Panicked\<rparr>
              | Some out \<Rightarrow>
                  (let s2 = (if length (Records out) = 0
                             then s1\<lparr>trace := trace s1 @ [EvSleep 100]\<rparr> else s1)
                   in finish_batch out
                        (handle_records deps (Records out) (s2\<lparr>entrySize := 0\<rparr>)))))"

text \<open>
  What the outside can answer or do: the result of \<open>GetShardIterator\<close>, the value of
  \<open>running\<close> at a loop head, the result of \<open>GetRecords\<close>, and a firing of the stateman's
  15 s timer (\<open>Flush\<close>, atomic under the stateman's mutex). An answer that does not fit
  the place where the goroutine stands is not consumed.
\<close>

datatype input =
    IterResp "GetShardIteratorOutput option" "error option"
  | Running bool
  | RecordsResp "GetRecordsOutput option" "error option"
  | FlushTick

definition step :: "('p, 'g) deps \<Rightarrow> ('p, 'g) consumer \<Rightarrow> input \<Rightarrow> ('p, 'g) consumer" where
  "step deps s inp =
     (case inp of
        FlushTick \<Rightarrow> s\<lparr>stateMan := Flush (stateMan s)\<rparr>
      | IterResp output err \<Rightarrow> if loc s = Acquiring then reconnect s output err else s
      | Running b \<Rightarrow> if loc s = LoopHead then loop_head deps s b else s
      | RecordsResp res err \<Rightarrow> if loc s = Fetching then fetch deps s res err else s)"

definition run :: "('p, 'g) deps \<Rightarrow> ('p, 'g) consumer \<Rightarrow> input list \<Rightarrow> ('p, 'g) consumer" where
  "run deps s inps = foldl (step deps) s inps"

text \<open>The token a reader of the store gets for a stream and shard, without the insertion.\<close>

definition stored_token :: "seqmap \<Rightarrow> string \<Rightarrow> string \<Rightarrow> string" where
  "stored_token m strm sh = map_read (m strm) sh"

section \<open>Reading a trace\<close>

text \<open>The raw records (or messages) whose entries were handed to the processor, in order.\<close>

fun processed :: "'r event list \<Rightarrow> 'r list" where
  "processed [] = []"
| "processed (EvProcess r ent # es) = r # processed es"
| "processed (e # es) = processed es"

text \<open>The checkpoint writes \<open>(stream, shard, seq)\<close>, in order.\<close>

fun checkpoint_writes :: "'r event list \<Rightarrow> (string \<times> string \<times> string) list" where
  "checkpoint_writes [] = []"
| "checkpoint_writes (EvUpdateSequenceNum strm sh seq # es) = (strm, sh, seq) # checkpoint_writes es"
| "checkpoint_writes (e # es) = checkpoint_writes es"

text \<open>
  What may be seen once time parsing is off: no call of the extractor, and every entry
  handed over carries the timestamp of its record's metadata.
\<close>

fun src_stamped :: "('p, 'g) deps \<Rightarrow> Record event \<Rightarrow> bool" where
  "src_stamped deps (EvExtract d ok err) = False"
| "src_stamped deps (EvProcess r ent) = (TS ent = FromStandard deps (ApproximateArrivalTimestamp r))"
| "src_stamped deps e = True"

text \<open>
  Between batches the consumer's remembered sequence number, when it has one, is the token
  the store holds for its shard.
\<close>

definition token_kept :: "('p, 'g) consumer \<Rightarrow> bool" where
  "token_kept s =
     (if lastSeqNum s = '''' then True
      else stored_token (states (stateMan s)) (Stream_Name (stream s)) (ShardId (shard s))
             = lastSeqNum s)"


text \<open>The checkpoint write that follows a batch: none while no sequence number is remembered.\<close>

definition guarded_write :: "('p, 'g) consumer \<Rightarrow> Record event list" where
  "guarded_write s =
     (if lastSeqNum s = '''' then []
      else [EvUpdateSequenceNum (Stream_Name (stream s)) (ShardId (shard s)) (lastSeqNum s)])"

text \<open>The iterator after a response: \<open>res.NextShardIterator\<close> when the response has one.\<close>

definition next_iter :: "GetRecordsOutput \<Rightarrow> string \<Rightarrow> string" where
  "next_iter out it = (case NextShardIterator out of None \<Rightarrow> it | Some n \<Rightarrow> n)"

section \<open>A concrete configuration\<close>

text \<open>
  Collaborators to run the model on: a clock that counts, a parser that knows one number,
  an extractor that finds a time exactly in non-empty payloads, a processor that rejects
  exactly the empty payload.
\<close>

definition ex_deps :: "(unit, unit) deps" where
  "ex_deps =
     \<lparr>FromStandard = (\<lambda>t. Timestamp (unix_nanos t sdiv 1000000000) 0),
      UnixTime = Timestamp,
      Now = (\<lambda>k. Timestamp (int k) 0),
      ParseInt = (\<lambda>t. if t = ''1600000000000'' then Some 1600000000000 else None),
      Extract = (\<lambda>g d. (g, Time 7000000000, d \<noteq> [], False)),
      ProcessContext = (\<lambda>p e. (p, Entry.Data e = [])),
      Size = (\<lambda>e. of_nat (length (Entry.Data e))),
      Close = (\<lambda>p. (p, False))\<rparr>"

definition ex_hcfg :: handlerConfig where
  "ex_hcfg = \<lparr>queue = ''https://sqs/q'', tag = 3, ignoreTimestamps = False, src = None\<rparr>"

definition ex_task :: "unit queue_task" where
  "ex_task = \<lparr>qloc = QRunning, proc = (), nowcalls = 0, qtrace = []\<rparr>"

definition ex_msg :: "bytes \<Rightarrow> string option \<Rightarrow> Message" where
  "ex_msg body sent =
     \<lparr>Body = body,
      Attributes = (case sent of None \<Rightarrow> Map.empty | Some t \<Rightarrow> [''SentTimestamp'' \<mapsto> t])\<rparr>"

definition ex_stream :: streamDef where
  "ex_stream =
     \<lparr>Stream_Name = ''logs'', Iterator_Type = ''LATEST'', Parse_Time = True,
      Metrics_Interval = 60, JSON_Metrics = False\<rparr>"

definition ex_shard :: Shard where
  "ex_shard = \<lparr>ShardId = ''shardId-000'', SequenceNumberRange = None\<rparr>"

definition ex_closed_shard :: Shard where
  "ex_closed_shard =
     \<lparr>ShardId = ''shardId-001'',
      SequenceNumberRange =
        Some \<lparr>StartingSequenceNumber = Some ''1'', EndingSequenceNumber = Some ''99''\<rparr>\<rparr>"

text \<open>
  A store that was loaded with the token \<open>100\<close> for the shard (memory and file agree), and
  the consumer of that shard about to enter \<open>reconnectLoop\<close>.
\<close>

definition ex_store :: stateman where
  "ex_store =
     \<lparr>states = [''logs'' \<mapsto> [''shardId-000'' \<mapsto> ''100'']],
      stateFile = [''logs'' \<mapsto> [''shardId-000'' \<mapsto> ''100'']]\<rparr>"

definition ex_consumer :: "(unit, unit) consumer" where
  "ex_consumer =
     \<lparr>loc = Acquiring, stream = ex_stream, shard = ex_shard, tagid = 3, src = None,
      tg = (), procset = (), tracker = new_tracker ex_stream, iter = '''',
      gri = \<lparr>Limit = 0, gri_ShardIterator = ''''\<rparr>, lastSeqNum = '''', entrySize = 0,
      stateMan = ex_store, trace = []\<rparr>"

definition ex_record :: "string \<Rightarrow> bytes \<Rightarrow> Record" where
  "ex_record seq d =
     \<lparr>SequenceNumber = seq, ApproximateArrivalTimestamp = Time 5000000000, Data = d\<rparr>"

definition ex_batch :: "Record list \<Rightarrow> string \<Rightarrow> GetRecordsOutput" where
  "ex_batch rs next =
     \<lparr>Records = rs, NextShardIterator = Some next, MillisBehindLatest = 0\<rparr>"

text \<open>
  The inputs that take this consumer through the acquisition of an iterator and one batch
  holding the record \<open>105\<close>, into the retry loop of its second \<open>GetRecords\<close>, with no
  flush on the way; and the state it is in then.
\<close>

definition ex_inputs :: "input list" where
  "ex_inputs =
     [IterResp (Some \<lparr>ShardIterator = Some ''it0''\<rparr>) None,
      Running True,
      RecordsResp (Some (ex_batch [ex_record ''105'' [1]] ''it1'')) None,
      Running True]"

definition ex_fetching :: "(unit, unit) consumer" where
  "ex_fetching =
     \<lparr>loc = Fetching, stream = ex_stream, shard = ex_shard, tagid = 3, src = None,
      tg = (), procset = (),
      tracker = \<lparr>Disabled = False, millisbehind = 0, datasize = 1, entrysize = 1,
                 requests = 1\<rparr>,
      iter = ''it1'', gri = \<lparr>Limit = 5000, gri_ShardIterator = ''it1''\<rparr>,
      lastSeqNum = ''105'', entrySize = 1,
      stateMan =
        \<lparr>states = [''logs'' \<mapsto> [''shardId-000'' \<mapsto> ''105'']],
         stateFile = [''logs'' \<mapsto> [''shardId-000'' \<mapsto> ''100'']]\<rparr>,
      trace =
        [EvGetShardIterator
           \<lparr>gsii_ShardId = ''shardId-000'', gsii_StreamName = ''logs'',
            gsii_ShardIteratorType = ''AFTER_SEQUENCE_NUMBER'',
            gsii_StartingSequenceNumber = Some ''100''\<rparr>,
         EvGetRecords \<lparr>Limit = 5000, gri_ShardIterator = ''it0''\<rparr>,
         EvExtract [1] True False,
         EvProcess (ex_record ''105'' [1])
           \<lparr>TS = Timestamp 7 0, SRC = None, Tag = 3, Data = [1]\<rparr>,
         EvUpdateSequenceNum ''logs'' ''shardId-000'' ''105'']\<rparr>"

section \<open>Properties of the shard metrics\<close>

text \<open>
  C6. \<open>ReadAndReset\<close> returns the current lag and the three counters, zeroes the three
  counters and leaves the lag (and the \<open>Disabled\<close> flag) as they were; a second call right
  after the first returns the same lag and zero for the three counters.
\<close>

theorem ReadAndReset_twice:
  "fst (ReadAndReset s) = (millisbehind s, datasize s, entrysize s, requests s) \<and>
   snd (ReadAndReset s) = s\<lparr>datasize := 0, entrysize := 0, requests := 0\<rparr> \<and>
   millisbehind (snd (ReadAndReset s)) = millisbehind s \<and>
   fst (ReadAndReset (snd (ReadAndReset s))) = (millisbehind s, 0, 0, 0)"
  by (simp add: ReadAndReset_def)

section \<open>Properties of the checkpoint store\<close>

text \<open>
  C9. \<open>GetSequenceNum\<close> is not read-only. For a stream that has no entry in the store it
  returns the empty token and leaves an empty inner map under that stream in \<open>states\<close>:
  the map differs from the one before the call, and a \<open>Flush\<close> after the call writes a
  key for the stream, which a \<open>Flush\<close> before the call would not have written.
\<close>

theorem GetSequenceNum_inserts_stream:
  assumes "states s strm = None"
  shows "fst (GetSequenceNum s strm sh) = '''' \<and>
         states (snd (GetSequenceNum s strm sh)) = (states s)(strm \<mapsto> Map.empty) \<and>
         states (snd (GetSequenceNum s strm sh)) \<noteq> states s \<and>
         stateFile (Flush (snd (GetSequenceNum s strm sh))) strm = Some Map.empty \<and>
         stateFile (Flush s) strm = None"
  using assms
  by (auto simp: GetSequenceNum_def init_stream_def map_read_def Flush_def State_Write_def
      dest: fun_cong[where x = strm])

theorem GetSequenceNum_inserts_stream_witness:
  "states \<lparr>states = Map.empty, stateFile = Map.empty\<rparr> ''logs'' = None \<and>
   fst (GetSequenceNum \<lparr>states = Map.empty, stateFile = Map.empty\<rparr> ''logs'' ''shardId-000'') = '''' \<and>
   states (snd (GetSequenceNum \<lparr>states = Map.empty, stateFile = Map.empty\<rparr> ''logs'' ''shardId-000''))
      = (states \<lparr>states = Map.empty, stateFile = Map.empty\<rparr>)(''logs'' \<mapsto> Map.empty) \<and>
   states (snd (GetSequenceNum \<lparr>states = Map.empty, stateFile = Map.empty\<rparr> ''logs'' ''shardId-000''))
      \<noteq> states \<lparr>states = Map.empty, stateFile = Map.empty\<rparr> \<and>
   stateFile (Flush (snd (GetSequenceNum \<lparr>states = Map.empty, stateFile = Map.empty\<rparr> ''logs'' ''shardId-000''))) ''logs'' = Some Map.empty \<and>
   stateFile (Flush \<lparr>states = Map.empty, stateFile = Map.empty\<rparr>) ''logs'' = None"
  using GetSequenceNum_inserts_stream[of "\<lparr>states = Map.empty, stateFile = Map.empty\<rparr>" "''logs''" "''shardId-000''"]
  by simp

section \<open>Properties of the queue consumer\<close>

lemma processed_append: "processed (xs @ ys) = processed xs @ processed ys"
  by (induction xs rule: processed.induct) simp_all

lemma message_ts_frame:
  "proc (fst (message_ts deps hcfg v s)) = proc s \<and> qloc (fst (message_ts deps hcfg v s)) = qloc s \<and>
   processed (qtrace (fst (message_ts deps hcfg v s))) = processed (qtrace s)"
  by (simp add: message_ts_def processed_append split: option.splits)


lemma handle_message_processed:
  "processed (qtrace (handle_message deps hcfg v s)) = processed (qtrace s) @ [v]"
  using message_ts_frame[of deps hcfg v s]
  by (auto simp add: handle_message_def Let_def processed_append split: prod.splits)

lemma handle_message_qloc:
  "qloc (handle_message deps hcfg v s) = QRunning \<Longrightarrow> qloc s = QRunning"
  using message_ts_frame[of deps hcfg v s]
  by (auto simp add: handle_message_def Let_def split: prod.splits if_splits)

lemma handle_messages_running:
  "qloc (handle_messages deps hcfg ms s) = QRunning \<Longrightarrow>
   processed (qtrace (handle_messages deps hcfg ms s)) = processed (qtrace s) @ ms"
proof (induction ms arbitrary: s)
  case Nil
  then show ?case by simp
next
  case (Cons v ms)
  then show ?case
    by (cases "qloc (handle_message deps hcfg v s)")
       (auto simp: Let_def handle_message_processed)
qed

lemma handle_messages_append:
  "qloc (handle_messages deps hcfg pre s) = QRunning \<Longrightarrow>
   handle_messages deps hcfg (pre @ ys) s = handle_messages deps hcfg ys (handle_messages deps hcfg pre s)"
proof (induction pre arbitrary: s)
  case Nil
  then show ?case by simp
next
  case (Cons v pre)
  then show ?case
    by (cases "qloc (handle_message deps hcfg v s)") (auto simp: Let_def)
qed

lemma handle_message_error:
  assumes "snd (ProcessContext deps (proc s)
             \<lparr>TS = snd (message_ts deps hcfg v s), SRC = handlerConfig.src hcfg,
              Tag = tag hcfg, Data = Body v\<rparr>)"
  shows "qloc (handle_message deps hcfg v s) = QReturned \<and>
         qtrace (handle_message deps hcfg v s) =
           qtrace (fst (message_ts deps hcfg v s)) @
             [EvProcess v \<lparr>TS = snd (message_ts deps hcfg v s), SRC = handlerConfig.src hcfg,
                           Tag = tag hcfg, Data = Body v\<rparr>,
              EvLog Error ''Sending message'']"
  using assms message_ts_frame[of deps hcfg v s]
  by (auto simp add: handle_message_def Let_def split: prod.splits)

lemma queueRunner_returned: "qloc s = QReturned \<Longrightarrow> queueRunner deps hcfg s inps = s"
  by (induction inps) (simp_all add: queueRunner_def queue_turn_def)

text \<open>
  C4. When the processor returns an error for a message \<open>v\<close> of a receive batch (the
  messages \<open>pre\<close> before it having been handed over without error), the message loop stops
  there: the result is the one of handling \<open>v\<close> and does not depend on the remaining
  messages \<open>rest\<close>, the task has returned, the messages handed to the processor in this
  batch are exactly \<open>pre\<close> and \<open>v\<close>, and nothing the outside does afterwards changes the
  task any more.
\<close>

theorem processor_error_ends_queue_task:
  assumes "qloc (handle_messages deps hcfg pre s) = QRunning"
    and "snd (ProcessContext deps (proc (handle_messages deps hcfg pre s))
           \<lparr>TS = snd (message_ts deps hcfg v (handle_messages deps hcfg pre s)),
            SRC = handlerConfig.src hcfg, Tag = tag hcfg, Data = Body v\<rparr>)"
  shows "handle_messages deps hcfg (pre @ v # rest) s =
           handle_message deps hcfg v (handle_messages deps hcfg pre s) \<and>
         qloc (handle_messages deps hcfg (pre @ v # rest) s) = QReturned \<and>
         processed (qtrace (handle_messages deps hcfg (pre @ v # rest) s)) =
           processed (qtrace s) @ pre @ [v] \<and>
         (\<forall>inps. queueRunner deps hcfg (handle_messages deps hcfg (pre @ v # rest) s) inps =
                  handle_messages deps hcfg (pre @ v # rest) s)"
proof -
  let ?s1 = "handle_messages deps hcfg pre s"
  have ret: "qloc (handle_message deps hcfg v ?s1) = QReturned"
    using handle_message_error[OF assms(2)] by simp
  have eq: "handle_messages deps hcfg (pre @ v # rest) s = handle_message deps hcfg v ?s1"
    using handle_messages_append[OF assms(1), of "v # rest"] ret by (simp add: Let_def)
  have "processed (qtrace (handle_message deps hcfg v ?s1)) = processed (qtrace s) @ pre @ [v]"
    using handle_messages_running[OF assms(1)] by (simp add: handle_message_processed)
  then show ?thesis using eq ret by (simp add: queueRunner_returned)
qed

theorem processor_error_ends_queue_task_witness:
  "qloc (handle_messages ex_deps ex_hcfg [ex_msg [1] None] ex_task) = QRunning \<and>
   snd (ProcessContext ex_deps (proc (handle_messages ex_deps ex_hcfg [ex_msg [1] None] ex_task))
           \<lparr>TS = snd (message_ts ex_deps ex_hcfg (ex_msg [] None) (handle_messages ex_deps ex_hcfg [ex_msg [1] None] ex_task)),
            SRC = handlerConfig.src ex_hcfg, Tag = tag ex_hcfg, Data = Body (ex_msg [] None)\<rparr>) \<and>
   handle_messages ex_deps ex_hcfg ([ex_msg [1] None] @ ex_msg [] None # [ex_msg [2] None]) ex_task =
           handle_message ex_deps ex_hcfg (ex_msg [] None) (handle_messages ex_deps ex_hcfg [ex_msg [1] None] ex_task) \<and>
   qloc (handle_messages ex_deps ex_hcfg ([ex_msg [1] None] @ ex_msg [] None # [ex_msg [2] None]) ex_task) = QReturned \<and>
   processed (qtrace (handle_messages ex_deps ex_hcfg ([ex_msg [1] None] @ ex_msg [] None # [ex_msg [2] None]) ex_task)) =
           processed (qtrace ex_task) @ [ex_msg [1] None] @ [ex_msg [] None] \<and>
   (\<forall>inps. queueRunner ex_deps ex_hcfg (handle_messages ex_deps ex_hcfg ([ex_msg [1] None] @ ex_msg [] None # [ex_msg [2] None]) ex_task) inps =
                  handle_messages ex_deps ex_hcfg ([ex_msg [1] None] @ ex_msg [] None # [ex_msg [2] None]) ex_task)"
proof -
  have a: "qloc (handle_messages ex_deps ex_hcfg [ex_msg [1] None] ex_task) = QRunning"
    by (simp add: handle_message_def message_ts_def ex_deps_def ex_hcfg_def ex_msg_def ex_task_def Let_def)
  have b: "snd (ProcessContext ex_deps (proc (handle_messages ex_deps ex_hcfg [ex_msg [1] None] ex_task))
           \<lparr>TS = snd (message_ts ex_deps ex_hcfg (ex_msg [] None) (handle_messages ex_deps ex_hcfg [ex_msg [1] None] ex_task)),
            SRC = handlerConfig.src ex_hcfg, Tag = tag ex_hcfg, Data = Body (ex_msg [] None)\<rparr>)"
    by (simp add: ex_deps_def ex_msg_def)
  show ?thesis using a b processor_error_ends_queue_task[OF a b, of "[ex_msg [2] None]"] by blast
qed
text \<open>
  C8. With \<open>ignoreTimestamps\<close> false, a message without the \<open>SentTimestamp\<close> attribute
  is logged ("SQS did not provide timestamp for message") and its entry is still built and
  handed to the processor, with the zero timestamp, the configured source and tag and the
  body as data. The message loop then goes on with the remaining messages of the batch
  exactly when the processor accepted the entry, as for any other message.
\<close>

theorem missing_timestamp_attribute_still_handed:
  assumes "ignoreTimestamps hcfg = False"
    and "Attributes v ''SentTimestamp'' = None"
    and "qloc s = QRunning"
    and "ProcessContext deps (proc s)
           \<lparr>TS = zero_Timestamp, SRC = handlerConfig.src hcfg, Tag = tag hcfg, Data = Body v\<rparr>
         = (p, perr)"
  shows "handle_message deps hcfg v s =
           s\<lparr>proc := p,
             qtrace := qtrace s @
               [EvLog Error ''SQS did not provide timestamp for message'',
                EvProcess v \<lparr>TS = zero_Timestamp, SRC = handlerConfig.src hcfg,
                             Tag = tag hcfg, Data = Body v\<rparr>] @
               (if perr then [EvLog Error ''Sending message''] else []),
             qloc := (if perr then QReturned else QRunning)\<rparr> \<and>
         handle_messages deps hcfg (v # rest) s =
           (if perr then handle_message deps hcfg v s
            else handle_messages deps hcfg rest (handle_message deps hcfg v s))"
proof -
  have ts: "message_ts deps hcfg v s =
      (s\<lparr>qtrace := qtrace s @ [EvLog Error ''SQS did not provide timestamp for message'']\<rparr>,
       zero_Timestamp)"
    using assms(1,2) by (simp add: message_ts_def)
  have hm: "handle_message deps hcfg v s =
           s\<lparr>proc := p,
             qtrace := qtrace s @
               [EvLog Error ''SQS did not provide timestamp for message'',
                EvProcess v \<lparr>TS = zero_Timestamp, SRC = handlerConfig.src hcfg,
                             Tag = tag hcfg, Data = Body v\<rparr>] @
               (if perr then [EvLog Error ''Sending message''] else []),
             qloc := (if perr then QReturned else QRunning)\<rparr>"
    unfolding handle_message_def ts using assms(3,4) by (cases s) (simp add: Let_def)
  have "qloc (handle_message deps hcfg v s) = QReturned \<longleftrightarrow> perr"
    by (simp add: hm)
  then show ?thesis using hm by (simp add: Let_def)
qed

theorem missing_timestamp_attribute_still_handed_witness:
  "ignoreTimestamps ex_hcfg = False \<and>
   Attributes (ex_msg [1] None) ''SentTimestamp'' = None \<and>
   qloc ex_task = QRunning \<and>
   ProcessContext ex_deps (proc ex_task)
           \<lparr>TS = zero_Timestamp, SRC = handlerConfig.src ex_hcfg, Tag = tag ex_hcfg, Data = Body (ex_msg [1] None)\<rparr>
         = ((), False) \<and>
   handle_message ex_deps ex_hcfg (ex_msg [1] None) ex_task =
           ex_task\<lparr>proc := (),
             qtrace := qtrace ex_task @
               [EvLog Error ''SQS did not provide timestamp for message'',
                EvProcess (ex_msg [1] None) \<lparr>TS = zero_Timestamp, SRC = handlerConfig.src ex_hcfg,
                             Tag = tag ex_hcfg, Data = Body (ex_msg [1] None)\<rparr>] @
               (if False then [EvLog Error ''Sending message''] else []),
             qloc := (if False then QReturned else QRunning)\<rparr> \<and>
   handle_messages ex_deps ex_hcfg (ex_msg [1] None # [ex_msg [2] (Some ''1600000000000'')]) ex_task =
           (if False then handle_message ex_deps ex_hcfg (ex_msg [1] None) ex_task
            else handle_messages ex_deps ex_hcfg [ex_msg [2] (Some ''1600000000000'')] (handle_message ex_deps ex_hcfg (ex_msg [1] None) ex_task))"
proof -
  have a: "ignoreTimestamps ex_hcfg = False" by (simp add: ex_hcfg_def)
  have b: "Attributes (ex_msg [1] None) ''SentTimestamp'' = None" by (simp add: ex_msg_def)
  have c: "qloc ex_task = QRunning" by (simp add: ex_task_def)
  have d: "ProcessContext ex_deps (proc ex_task)
           \<lparr>TS = zero_Timestamp, SRC = handlerConfig.src ex_hcfg, Tag = tag ex_hcfg, Data = Body (ex_msg [1] None)\<rparr>
         = ((), False)" by (simp add: ex_deps_def ex_msg_def)
  show ?thesis using a b c d missing_timestamp_attribute_still_handed[OF a b c d, of "[ex_msg [2] (Some ''1600000000000'')]"] by blast
qed


section \<open>Properties of the per-shard consumer\<close>

lemmas ex_defs = ex_deps_def ex_consumer_def ex_stream_def ex_shard_def ex_store_def
  ex_record_def ex_batch_def new_tracker_def ex_inputs_def

lemmas consumer_defs = run_def step_def reconnect_def loop_head_def fetch_def finish_batch_def
  handle_record_def GetSequenceNum_def init_stream_def map_read_def UpdateSequenceNum_def
  Update_def make_gsii_def Flush_def State_Write_def stored_token_def Let_def
  ErrCodeExpiredIteratorException_def ErrCodeProvisionedThroughputExceededException_def

lemma ex_fetching_reached: "run ex_deps ex_consumer ex_inputs = ex_fetching"
  by (simp add: ex_defs consumer_defs ex_fetching_def)

lemma checkpoint_writes_append:
  "checkpoint_writes (xs @ ys) = checkpoint_writes xs @ checkpoint_writes ys"
  by (induction xs rule: checkpoint_writes.induct) simp_all


lemma handle_record_trace:
  "\<exists>evs. trace (handle_record deps r s) = trace s @ evs \<and> processed evs = [r] \<and>
         checkpoint_writes evs = []"
  by (simp add: handle_record_def Let_def processed_append checkpoint_writes_append
      split: prod.splits)


lemma handle_records_trace:
  "\<exists>evs. trace (handle_records deps rs s) = trace s @ evs \<and> processed evs = rs \<and>
         checkpoint_writes evs = []"
proof (induction rs arbitrary: s)
  case Nil
  then show ?case by simp
next
  case (Cons r rs)
  obtain e1 where e1: "trace (handle_record deps r s) = trace s @ e1" "processed e1 = [r]"
      "checkpoint_writes e1 = []"
    using handle_record_trace by blast
  obtain e2 where e2: "trace (handle_records deps rs (handle_record deps r s)) =
      trace (handle_record deps r s) @ e2" "processed e2 = rs" "checkpoint_writes e2 = []"
    using Cons.IH by blast
  have "trace (handle_records deps (r # rs) s) = trace s @ (e1 @ e2)"
    using e1 e2 by simp
  moreover have "processed (e1 @ e2) = r # rs" "checkpoint_writes (e1 @ e2) = []"
    using e1 e2 by (simp_all add: processed_append checkpoint_writes_append)
  ultimately show ?case by blast
qed

lemma fetch_first_event:
  "trace (fetch deps s res err) ! length (trace s) = EvGetRecords (gri s)"
proof -
  have base: "(tr @ EvGetRecords g # evs) ! length tr = EvGetRecords g" for tr :: "Record event list" and g evs
    by simp
  show ?thesis
  proof (cases err)
    case (Some e)
    then show ?thesis
      by (cases e) (simp_all add: fetch_def Let_def nth_append split: option.splits)
  next
    case None
    show ?thesis
    proof (cases res)
      case nores: None
      then show ?thesis using None by (simp add: fetch_def Let_def nth_append)
    next
      case (Some out)
      let ?s2 = "(case NextShardIterator out of None \<Rightarrow> s\<lparr>trace := trace s @ [EvGetRecords (gri s)]\<rparr>
                  | Some n \<Rightarrow> s\<lparr>trace := trace s @ [EvGetRecords (gri s)], iter := n\<rparr>)"
      let ?s3 = "(if length (Records out) = 0 then ?s2\<lparr>trace := trace ?s2 @ [EvSleep 100]\<rparr> else ?s2)\<lparr>entrySize := 0\<rparr>"
      obtain evs where evs: "trace (handle_records deps (Records out) ?s3) = trace ?s3 @ evs"
        using handle_records_trace by blast
      have t3: "\<exists>pre. trace ?s3 = trace s @ EvGetRecords (gri s) # pre"
        by (simp split: option.splits)
      then obtain pre where "trace ?s3 = trace s @ EvGetRecords (gri s) # pre" by blast
      then have "\<exists>post. trace (fetch deps s res err) = trace s @ EvGetRecords (gri s) # post"
        using None Some evs
        by (simp add: fetch_def Let_def finish_batch_def split: option.splits)
      then show ?thesis using base by auto
    qed
  qed
qed

text \<open>
  C7. In the retry loop, a \<open>GetRecords\<close> that fails with the throughput-exceeded code
  is logged as a warning and followed by a sleep of 500 ms; the consumer stays in the retry
  loop with the request \<open>gri\<close> it had, so whatever comes back next, the next
  \<open>GetRecords\<close> call carries the same iterator as the failed one. Nothing else changes
  (the variable \<open>iter\<close> only if the failed call returned a next iterator).
\<close>

theorem throughput_exceeded_retries_same_request:
  assumes "loc s = Fetching"
  shows
    "step deps s (RecordsResp res (Some (AwsErr ErrCodeProvisionedThroughputExceededException msg)))
       = s\<lparr>iter := (case res of None \<Rightarrow> iter s
                      | Some out \<Rightarrow> (case NextShardIterator out of None \<Rightarrow> iter s | Some n \<Rightarrow> n)),
            trace := trace s @
              [EvGetRecords (gri s), EvLog Warn ''Throughput exceeded, trying again'', EvSleep 500]\<rparr> \<and>
     loc (step deps s (RecordsResp res
            (Some (AwsErr ErrCodeProvisionedThroughputExceededException msg)))) = Fetching \<and>
     gri (step deps s (RecordsResp res
            (Some (AwsErr ErrCodeProvisionedThroughputExceededException msg)))) = gri s \<and>
     (\<forall>res' err'.
        trace (step deps
                 (step deps s (RecordsResp res
                    (Some (AwsErr ErrCodeProvisionedThroughputExceededException msg))))
                 (RecordsResp res' err'))
          ! (length (trace s) + 3) = EvGetRecords (gri s))"
proof -
  let ?s1 = "step deps s (RecordsResp res
            (Some (AwsErr ErrCodeProvisionedThroughputExceededException msg)))"
  have eq: "?s1 = s\<lparr>iter := (case res of None \<Rightarrow> iter s
                      | Some out \<Rightarrow> (case NextShardIterator out of None \<Rightarrow> iter s | Some n \<Rightarrow> n)),
            trace := trace s @
              [EvGetRecords (gri s), EvLog Warn ''Throughput exceeded, trying again'', EvSleep 500]\<rparr>"
    using assms by (cases s) (simp add: step_def fetch_def Let_def split: option.splits)
  have l: "loc ?s1 = Fetching" and g: "gri ?s1 = gri s"
    and t: "length (trace ?s1) = length (trace s) + 3"
    using assms by (simp_all add: eq)
  show ?thesis
    using eq l g t fetch_first_event[of deps ?s1] by (simp add: step_def)
qed

theorem throughput_exceeded_retries_same_request_witness:
  "loc ex_fetching = Fetching \<and>
   loc (step ex_deps ex_fetching (RecordsResp None
            (Some (AwsErr ErrCodeProvisionedThroughputExceededException ''slow down'')))) = Fetching \<and>
   gri (step ex_deps ex_fetching (RecordsResp None
            (Some (AwsErr ErrCodeProvisionedThroughputExceededException ''slow down'')))) = gri ex_fetching"
proof -
  have h: "loc ex_fetching = Fetching" by (simp add: ex_fetching_def)
  show ?thesis using h throughput_exceeded_retries_same_request[OF h, of ex_deps None "''slow down''"] by blast
qed

text \<open>
  C1, as the code has it. A \<open>GetRecords\<close> that fails with the iterator-expired code is
  logged, followed by a sleep of 100 ms, and sends the consumer back to \<open>Acquiring\<close> with
  the store untouched. The next \<open>GetShardIterator\<close> request is built from the token that
  the store's in-memory map \<open>states\<close> holds for the shard (after it when there is one, at
  the configured iterator type when there is none); the state file plays no part.
\<close>

theorem expired_iterator_reacquires_from_store_map:
  assumes "loc s = Fetching"
  shows
    "loc (step deps s (RecordsResp res (Some (AwsErr ErrCodeExpiredIteratorException msg))))
       = Acquiring \<and>
     stateMan (step deps s (RecordsResp res (Some (AwsErr ErrCodeExpiredIteratorException msg))))
       = stateMan s \<and>
     trace (step deps s (RecordsResp res (Some (AwsErr ErrCodeExpiredIteratorException msg))))
       = trace s @
           [EvGetRecords (gri s), EvLog Info ''Iterator expired, re-initializing'', EvSleep 100] \<and>
     (\<forall>output err.
        trace (step deps
                 (step deps s (RecordsResp res (Some (AwsErr ErrCodeExpiredIteratorException msg))))
                 (IterResp output err))
          ! (length (trace s) + 3)
        = EvGetShardIterator
            (make_gsii (stream s) (shard s)
               (stored_token (states (stateMan s)) (Stream_Name (stream s)) (ShardId (shard s)))))"
proof -
  define s1 where
    "s1 = step deps s (RecordsResp res (Some (AwsErr ErrCodeExpiredIteratorException msg)))"
  have ne: "ErrCodeExpiredIteratorException \<noteq> ErrCodeProvisionedThroughputExceededException"
    by (simp add: ErrCodeExpiredIteratorException_def
        ErrCodeProvisionedThroughputExceededException_def)
  have l: "loc s1 = Acquiring" and sm: "stateMan s1 = stateMan s"
    and st: "stream s1 = stream s" and sh: "shard s1 = shard s"
    and tr: "trace s1 = trace s @
           [EvGetRecords (gri s), EvLog Info ''Iterator expired, re-initializing'', EvSleep 100]"
    using assms ne by (simp_all add: s1_def step_def fetch_def Let_def split: option.splits)
  have rq: "trace (reconnect s' outp err) ! length (trace s')
      = EvGetShardIterator (make_gsii (stream s') (shard s')
               (stored_token (states (stateMan s')) (Stream_Name (stream s')) (ShardId (shard s'))))"
    for s' :: "('a, 'b) consumer" and outp err
    by (simp add: reconnect_def GetSequenceNum_def init_stream_def stored_token_def Let_def
        map_read_def nth_append split: option.splits)
  have len: "length (trace s1) = length (trace s) + 3" by (simp add: tr)
  have "trace (step deps s1 (IterResp outp err)) ! (length (trace s) + 3)
      = EvGetShardIterator (make_gsii (stream s) (shard s)
               (stored_token (states (stateMan s)) (Stream_Name (stream s)) (ShardId (shard s))))"
    for outp err
    using rq[of s1 outp err] l by (simp add: step_def len sm st sh)
  then show ?thesis
    using l sm tr unfolding s1_def by blast
qed

theorem expired_iterator_reacquires_from_store_map_witness:
  "loc ex_fetching = Fetching \<and>
   loc (step ex_deps ex_fetching
          (RecordsResp None (Some (AwsErr ErrCodeExpiredIteratorException ''expired''))))
     = Acquiring \<and>
   (\<forall>output err.
        trace (step ex_deps
                 (step ex_deps ex_fetching
                    (RecordsResp None (Some (AwsErr ErrCodeExpiredIteratorException ''expired''))))
                 (IterResp output err))
          ! (length (trace ex_fetching) + 3)
        = EvGetShardIterator
            (make_gsii (stream ex_fetching) (shard ex_fetching)
               (stored_token (states (stateMan ex_fetching)) (Stream_Name (stream ex_fetching))
                  (ShardId (shard ex_fetching)))))"
proof -
  have h: "loc ex_fetching = Fetching" by (simp add: ex_fetching_def)
  show ?thesis using h expired_iterator_reacquires_from_store_map[OF h, of ex_deps None "''expired''"] by blast
qed

text \<open>
  C1, as stated, fails. The store was loaded with token \<open>100\<close>; the consumer consumed a
  batch ending in record \<open>105\<close> and no flush has happened, so the state file still holds
  \<open>100\<close>. After an expired iterator the consumer asks for an iterator after \<open>105\<close>, the
  token that is in memory only, and not after the persisted \<open>100\<close>.
\<close>

theorem expired_iterator_ignores_persisted_token:
  "run ex_deps ex_consumer ex_inputs = ex_fetching \<and>
   loc ex_fetching = Fetching \<and>
   stored_token (stateFile (stateMan ex_fetching)) ''logs'' ''shardId-000'' = ''100'' \<and>
   loc (step ex_deps ex_fetching
          (RecordsResp None (Some (AwsErr ErrCodeExpiredIteratorException ''expired''))))
     = Acquiring \<and>
   last (trace (step ex_deps
                 (step ex_deps ex_fetching
                    (RecordsResp None (Some (AwsErr ErrCodeExpiredIteratorException ''expired''))))
                 (IterResp (Some \<lparr>ShardIterator = Some ''it2''\<rparr>) None)))
     = EvGetShardIterator
         \<lparr>gsii_ShardId = ''shardId-000'', gsii_StreamName = ''logs'',
          gsii_ShardIteratorType = ''AFTER_SEQUENCE_NUMBER'',
          gsii_StartingSequenceNumber = Some ''105''\<rparr> \<and>
   last (trace (step ex_deps
                 (step ex_deps ex_fetching
                    (RecordsResp None (Some (AwsErr ErrCodeExpiredIteratorException ''expired''))))
                 (IterResp (Some \<lparr>ShardIterator = Some ''it2''\<rparr>) None)))
     \<noteq> EvGetShardIterator (make_gsii ex_stream ex_shard ''100'')"
  using ex_fetching_reached
  by (simp add: ex_fetching_def ex_stream_def ex_shard_def consumer_defs)

lemma UpdateSequenceNum_same:
  assumes "stored_token (states sm) strm sh = v" and "v \<noteq> ''''"
  shows "UpdateSequenceNum sm strm sh v = sm"
proof -
  obtain f where f: "states sm strm = Some f"
    using assms by (cases "states sm strm") (auto simp: stored_token_def map_read_def)
  have fv: "f sh = Some v"
    using assms f by (cases "f sh") (auto simp: stored_token_def map_read_def)
  have "(states sm)(strm \<mapsto> f(sh \<mapsto> v)) = states sm"
    using f fv by (simp add: fun_upd_idem)
  then show ?thesis
    using f by (simp add: UpdateSequenceNum_def init_stream_def Let_def)
qed

lemma GetSequenceNum_reads_stored_token:
  "fst (GetSequenceNum sm strm sh) = stored_token (states sm) strm sh"
  by (simp add: GetSequenceNum_def init_stream_def stored_token_def map_read_def Let_def)

lemma stored_token_UpdateSequenceNum:
  "stored_token (states (UpdateSequenceNum sm strm sh v)) strm sh = v"
  by (simp add: UpdateSequenceNum_def init_stream_def Let_def stored_token_def map_read_def)

lemma empty_fetch:
  assumes "loc s = Fetching" and "Records r = []" and "token_kept s"
  shows "step deps s (RecordsResp (Some r) None) =
           s\<lparr>iter := next_iter r (iter s),
             trace := trace s @ [EvGetRecords (gri s), EvSleep 100] @ guarded_write s,
             entrySize := 0,
             tracker := Update (tracker s) r 0,
             loc := LoopHead\<rparr>"
proof (cases "lastSeqNum s = ''''")
  case True
  then show ?thesis
    using assms(1,2)
    by (cases s) (simp add: step_def fetch_def finish_batch_def Let_def next_iter_def
        guarded_write_def split: option.splits)
next
  case False
  then have "stored_token (states (stateMan s)) (Stream_Name (stream s)) (ShardId (shard s))
      = lastSeqNum s"
    using assms(3) by (simp add: token_kept_def)
  then have same: "UpdateSequenceNum (stateMan s) (Stream_Name (stream s)) (ShardId (shard s))
      (lastSeqNum s) = stateMan s"
    using False by (rule UpdateSequenceNum_same)
  show ?thesis
    using assms(1,2) False same
    by (cases s) (simp add: step_def fetch_def finish_batch_def Let_def next_iter_def
        guarded_write_def split: option.splits)
qed

lemma stored_token_init_stream:
  "stored_token (states (init_stream sm strm)) strm' sh = stored_token (states sm) strm' sh"
  by (simp add: init_stream_def stored_token_def map_read_def)

lemma token_kept_fresh: "lastSeqNum s = '''' \<Longrightarrow> token_kept s"
  by (simp add: token_kept_def)

lemma token_kept_finish: "token_kept (finish_batch res s)"
  by (simp add: finish_batch_def Let_def token_kept_def stored_token_UpdateSequenceNum)

lemma token_kept_step:
  assumes "token_kept s"
  shows "token_kept (step deps s inp)"
proof (cases inp)
  case (IterResp outp err)
  then show ?thesis
    using assms
    by (simp add: step_def reconnect_def GetSequenceNum_def Let_def token_kept_def
        stored_token_init_stream split: option.splits)
next
  case (Running b)
  then show ?thesis
    using assms by (simp add: step_def loop_head_def token_kept_def split: prod.splits)
next
  case (RecordsResp res err)
  show ?thesis
  proof (cases "loc s = Fetching")
    case False
    then show ?thesis using assms RecordsResp by (simp add: step_def)
  next
    case True
    show ?thesis
    proof (cases err)
      case (Some e)
      then show ?thesis
        using assms RecordsResp True
        by (cases e) (simp_all add: step_def fetch_def Let_def token_kept_def split: option.splits)
    next
      case None
      then show ?thesis
        using assms RecordsResp True
        by (cases res) (simp_all add: step_def fetch_def Let_def token_kept_finish,
            simp add: token_kept_def)
    qed
  qed
next
  case FlushTick
  then show ?thesis
    using assms by (simp add: step_def Flush_def token_kept_def)
qed

lemma token_kept_run: "token_kept s \<Longrightarrow> token_kept (run deps s inps)"
  by (induction inps arbitrary: s) (simp_all add: run_def token_kept_step)

text \<open>
  C3, as the code has it. Two \<open>GetRecords\<close> in a row that return no record and no error:
  after each the consumer sleeps 100 ms, updates the tracker and runs the guarded checkpoint
  write. While no record was seen since the iterator was acquired (\<open>lastSeqNum\<close> empty)
  nothing is written. Otherwise each empty batch writes the remembered sequence number once
  more; as the store already holds it for the shard, the store (map and file) is the same
  after the two fetches as before, and \<open>lastSeqNum\<close> is unchanged. This holds in every
  state \<open>s\<close> that a consumer started without a remembered sequence number can reach.
\<close>

theorem empty_fetches_keep_stored_token:
  assumes "lastSeqNum s0 = ''''" and "s = run deps s0 inps"
    and "loc s = Fetching" and "Records r1 = []" and "Records r2 = []"
  shows
    "trace (run deps s [RecordsResp (Some r1) None, Running True, RecordsResp (Some r2) None])
       = trace s @ [EvGetRecords (gri s), EvSleep 100] @ guarded_write s @
           [EvGetRecords \<lparr>Limit = 5000, gri_ShardIterator = next_iter r1 (iter s)\<rparr>, EvSleep 100] @
           guarded_write s \<and>
     stateMan (run deps s [RecordsResp (Some r1) None, Running True, RecordsResp (Some r2) None])
       = stateMan s \<and>
     lastSeqNum (run deps s [RecordsResp (Some r1) None, Running True, RecordsResp (Some r2) None])
       = lastSeqNum s \<and>
     loc (run deps s [RecordsResp (Some r1) None, Running True, RecordsResp (Some r2) None])
       = LoopHead"
proof -
  have kept: "token_kept s"
    unfolding assms(2) using assms(1) by (intro token_kept_run token_kept_fresh)
  define s1 where "s1 = step deps s (RecordsResp (Some r1) None)"
  define s2 where "s2 = step deps s1 (Running True)"
  have e1: "s1 = s\<lparr>iter := next_iter r1 (iter s),
             trace := trace s @ [EvGetRecords (gri s), EvSleep 100] @ guarded_write s,
             entrySize := 0, tracker := Update (tracker s) r1 0, loc := LoopHead\<rparr>"
    unfolding s1_def using assms(3,4) kept by (rule empty_fetch)
  have e2: "s2 = s1\<lparr>gri := \<lparr>Limit = 5000, gri_ShardIterator = iter s1\<rparr>, loc := Fetching\<rparr>"
    by (simp add: s2_def step_def loop_head_def e1)
  have l2: "loc s2 = Fetching" by (simp add: e2)
  have k2: "token_kept s2" using kept by (simp add: e2 e1 token_kept_def)
  have g2: "guarded_write s2 = guarded_write s" by (simp add: e2 e1 guarded_write_def)
  have e3: "step deps s2 (RecordsResp (Some r2) None) =
           s2\<lparr>iter := next_iter r2 (iter s2),
             trace := trace s2 @ [EvGetRecords (gri s2), EvSleep 100] @ guarded_write s2,
             entrySize := 0, tracker := Update (tracker s2) r2 0, loc := LoopHead\<rparr>"
    using l2 assms(5) k2 by (rule empty_fetch)
  have r: "run deps s [RecordsResp (Some r1) None, Running True, RecordsResp (Some r2) None]
      = step deps s2 (RecordsResp (Some r2) None)"
    by (simp add: run_def s1_def s2_def)
  show ?thesis
    unfolding r e3 g2 by (simp add: e2 e1)
qed

theorem empty_fetches_keep_stored_token_witness:
  "lastSeqNum ex_consumer = '''' \<and> ex_fetching = run ex_deps ex_consumer ex_inputs \<and>
   loc ex_fetching = Fetching \<and> Records (ex_batch [] ''it2'') = [] \<and>
   Records (ex_batch [] ''it3'') = [] \<and>
   stateMan (run ex_deps ex_fetching
      [RecordsResp (Some (ex_batch [] ''it2'')) None, Running True,
       RecordsResp (Some (ex_batch [] ''it3'')) None])
       = stateMan ex_fetching \<and>
   loc (run ex_deps ex_fetching
      [RecordsResp (Some (ex_batch [] ''it2'')) None, Running True,
       RecordsResp (Some (ex_batch [] ''it3'')) None])
       = LoopHead"
proof -
  have z: "lastSeqNum ex_consumer = ''''" by (simp add: ex_consumer_def)
  have r: "ex_fetching = run ex_deps ex_consumer ex_inputs"
    by (simp add: ex_fetching_reached)
  have a: "loc ex_fetching = Fetching" by (simp add: ex_fetching_def)
  have b: "Records (ex_batch [] ''it2'') = []" and c: "Records (ex_batch [] ''it3'') = []"
    by (simp_all add: ex_batch_def)
  show ?thesis
    using z r a b c empty_fetches_keep_stored_token[OF z r a b c] by blast
qed

text \<open>
  C3, as stated, fails: after a batch that held record \<open>105\<close>, each of two empty fetches
  is followed by a checkpoint write of \<open>105\<close>.
\<close>

theorem empty_fetch_rewrites_checkpoint:
  "run ex_deps ex_consumer ex_inputs = ex_fetching \<and>
   checkpoint_writes
     (drop (length (trace ex_fetching))
        (trace (run ex_deps ex_fetching
           [RecordsResp (Some (ex_batch [] ''it2'')) None, Running True,
            RecordsResp (Some (ex_batch [] ''it3'')) None])))
     = [(''logs'', ''shardId-000'', ''105''), (''logs'', ''shardId-000'', ''105'')]"
  using ex_fetching_reached
  by (simp add: ex_fetching_def ex_stream_def ex_shard_def ex_batch_def consumer_defs)








lemma off_record:
  assumes "Parse_Time (stream s) = False"
  shows "Parse_Time (stream (handle_record deps r s)) = False \<and>
         tg (handle_record deps r s) = tg s \<and>
         (\<exists>evs. trace (handle_record deps r s) = trace s @ evs \<and>
                list_all (src_stamped deps) evs)"
  using assms by (simp add: handle_record_def Let_def split: prod.splits)

lemma off_records:
  "Parse_Time (stream s) = False \<Longrightarrow>
   Parse_Time (stream (handle_records deps rs s)) = False \<and>
   tg (handle_records deps rs s) = tg s \<and>
   (\<exists>evs. trace (handle_records deps rs s) = trace s @ evs \<and>
          list_all (src_stamped deps) evs)"
proof (induction rs arbitrary: s)
  case Nil
  then show ?case by simp
next
  case (Cons r rs)
  let ?s1 = "handle_record deps r s"
  from off_record[OF Cons.prems, of deps r]
  obtain e1 where a: "Parse_Time (stream ?s1) = False" "tg ?s1 = tg s"
      "trace ?s1 = trace s @ e1" "list_all (src_stamped deps) e1"
    by blast
  from Cons.IH[OF a(1)]
  obtain e2 where b: "Parse_Time (stream (handle_records deps rs ?s1)) = False"
      "tg (handle_records deps rs ?s1) = tg ?s1"
      "trace (handle_records deps rs ?s1) = trace ?s1 @ e2" "list_all (src_stamped deps) e2"
    by blast
  have "trace (handle_records deps (r # rs) s) = trace s @ (e1 @ e2)"
    using a b by simp
  moreover have "list_all (src_stamped deps) (e1 @ e2)" using a b by simp
  ultimately show ?case using a b by auto
qed

lemma off_finish:
  "Parse_Time (stream (finish_batch res s)) = Parse_Time (stream s) \<and>
   tg (finish_batch res s) = tg s \<and>
   (\<exists>evs. trace (finish_batch res s) = trace s @ evs \<and> list_all (src_stamped deps) evs)"
  by (simp add: finish_batch_def Let_def)

lemma off_fetch:
  assumes "Parse_Time (stream s) = False"
  shows "Parse_Time (stream (fetch deps s res err)) = False \<and>
         tg (fetch deps s res err) = tg s \<and>
         (\<exists>evs. trace (fetch deps s res err) = trace s @ evs \<and>
                list_all (src_stamped deps) evs)"
proof (cases err)
  case (Some e)
  then show ?thesis
    using assms by (cases e) (simp_all add: fetch_def Let_def split: option.splits)
next
  case None
  show ?thesis
  proof (cases res)
    case nores: None
    then show ?thesis using None assms by (simp add: fetch_def Let_def)
  next
    case (Some out)
    define s2 where "s2 = (s\<lparr>iter := next_iter out (iter s),
                             trace := trace s @ [EvGetRecords (gri s)] @
                                (if length (Records out) = 0 then [EvSleep 100] else [])\<rparr>)\<lparr>entrySize := 0\<rparr>"
    have f: "fetch deps s res err = finish_batch out (handle_records deps (Records out) s2)"
      using None Some
      by (cases s) (simp add: fetch_def Let_def s2_def next_iter_def split: option.splits)
    have p2: "Parse_Time (stream s2) = False" using assms by (simp add: s2_def)
    from off_records[OF p2, of deps "Records out"]
    obtain e2 where b: "Parse_Time (stream (handle_records deps (Records out) s2)) = False"
        "tg (handle_records deps (Records out) s2) = tg s2"
        "trace (handle_records deps (Records out) s2) = trace s2 @ e2"
        "list_all (src_stamped deps) e2"
      by blast
    from off_finish[of out "handle_records deps (Records out) s2" deps]
    obtain e3 where c: "Parse_Time (stream (fetch deps s res err)) = False"
        "tg (fetch deps s res err) = tg s2"
        "trace (fetch deps s res err) = trace (handle_records deps (Records out) s2) @ e3"
        "list_all (src_stamped deps) e3"
      unfolding f using b by auto
    have "trace (fetch deps s res err) =
        trace s @ ([EvGetRecords (gri s)] @
                   (if length (Records out) = 0 then [EvSleep 100] else []) @ e2 @ e3)"
      using b c by (simp add: s2_def)
    moreover have "list_all (src_stamped deps)
        ([EvGetRecords (gri s)] @ (if length (Records out) = 0 then [EvSleep 100] else []) @ e2 @ e3)"
      using b c by simp
    ultimately show ?thesis using c by (auto simp: s2_def)
  qed
qed

lemma off_step:
  assumes "Parse_Time (stream s) = False"
  shows "Parse_Time (stream (step deps s inp)) = False \<and>
         tg (step deps s inp) = tg s \<and>
         (\<exists>evs. trace (step deps s inp) = trace s @ evs \<and> list_all (src_stamped deps) evs)"
proof (cases inp)
  case (IterResp outp err)
  then show ?thesis
    using assms
    by (simp add: step_def reconnect_def Let_def split: option.splits prod.splits)
next
  case (Running b)
  then show ?thesis
    using assms by (simp add: step_def loop_head_def split: prod.splits)
next
  case (RecordsResp res err)
  then show ?thesis
    using assms off_fetch[OF assms, of deps res err] by (simp add: step_def)
next
  case FlushTick
  then show ?thesis using assms by (simp add: step_def)
qed

lemma off_run:
  "Parse_Time (stream s) = False \<Longrightarrow>
   Parse_Time (stream (run deps s inps)) = False \<and>
   tg (run deps s inps) = tg s \<and>
   (\<exists>evs. trace (run deps s inps) = trace s @ evs \<and> list_all (src_stamped deps) evs)"
proof (induction inps arbitrary: s)
  case Nil
  then show ?case by (simp add: run_def)
next
  case (Cons i inps)
  let ?s1 = "step deps s i"
  from off_step[OF Cons.prems, of deps i]
  obtain e1 where a: "Parse_Time (stream ?s1) = False" "tg ?s1 = tg s"
      "trace ?s1 = trace s @ e1" "list_all (src_stamped deps) e1"
    by blast
  from Cons.IH[OF a(1)]
  obtain e2 where b: "Parse_Time (stream (run deps ?s1 inps)) = False"
      "tg (run deps ?s1 inps) = tg ?s1"
      "trace (run deps ?s1 inps) = trace ?s1 @ e2" "list_all (src_stamped deps) e2"
    by blast
  have r: "run deps s (i # inps) = run deps ?s1 inps" by (simp add: run_def)
  have "trace (run deps s (i # inps)) = trace s @ (e1 @ e2)"
    using a b r by simp
  moreover have "list_all (src_stamped deps) (e1 @ e2)" using a b by simp
  ultimately show ?case using a b r by auto
qed

text \<open>
  C5. While \<open>Parse_Time\<close> is on, a record whose extraction fails (\<open>!ok || err != nil\<close>)
  turns \<open>Parse_Time\<close> off in the shard's own stream definition; its entry is handed over
  with the timestamp of the record's metadata. Whatever follows (the remaining records
  \<open>rest\<close> of the batch, the end of the batch, any further answers \<open>inps\<close> of the outside),
  \<open>Parse_Time\<close> stays off, the state of the extractor stays as that call left it, and
  after the failed call the trace holds no call of the extractor and only entries stamped
  from their record's metadata.
\<close>

theorem time_parsing_stays_off:
  assumes "Parse_Time (stream s) = True"
    and "Extract deps (tg s) (Data r) = (g, ts, ok, err)"
    and "\<not> ok \<or> err"
  shows
    "Parse_Time (stream (handle_record deps r s)) = False \<and>
     tg (handle_record deps r s) = g \<and>
     trace (handle_record deps r s) =
       trace s @
         [EvExtract (Data r) ok err,
          EvProcess r \<lparr>TS = FromStandard deps (ApproximateArrivalTimestamp r),
                        SRC = consumer.src s, Tag = tagid s, Data = Data r\<rparr>] @
         (if snd (ProcessContext deps (procset s)
                    \<lparr>TS = FromStandard deps (ApproximateArrivalTimestamp r),
                     SRC = consumer.src s, Tag = tagid s, Data = Data r\<rparr>)
          then [EvLog Error ''Failed to handle entry''] else []) \<and>
     (\<forall>rest res inps.
        Parse_Time (stream (run deps
            (finish_batch res (handle_records deps rest (handle_record deps r s))) inps)) = False \<and>
        tg (run deps
            (finish_batch res (handle_records deps rest (handle_record deps r s))) inps) = g \<and>
        take (Suc (length (trace s))) (trace (run deps
            (finish_batch res (handle_records deps rest (handle_record deps r s))) inps))
          = trace s @ [EvExtract (Data r) ok err] \<and>
        list_all (src_stamped deps)
          (drop (Suc (length (trace s))) (trace (run deps
            (finish_batch res (handle_records deps rest (handle_record deps r s))) inps))))"
proof -
  define ent where "ent = \<lparr>TS = FromStandard deps (ApproximateArrivalTimestamp r),
                        SRC = consumer.src s, Tag = tagid s, Data = Data r\<rparr>"
  define tail where "tail = EvProcess r ent #
     (if snd (ProcessContext deps (procset s) ent) then [EvLog Error ''Failed to handle entry'']
      else [])"
  let ?s1 = "handle_record deps r s"
  have p1: "Parse_Time (stream ?s1) = False" and g1: "tg ?s1 = g"
    and t1: "trace ?s1 = trace s @ EvExtract (Data r) ok err # tail"
    using assms
    by (auto simp add: handle_record_def Let_def ent_def tail_def split: prod.splits)
  have st: "list_all (src_stamped deps) tail" by (simp add: tail_def ent_def)
  have later: "Parse_Time (stream (run deps (finish_batch res (handle_records deps rest ?s1)) inps)) = False \<and>
        tg (run deps (finish_batch res (handle_records deps rest ?s1)) inps) = g \<and>
        take (Suc (length (trace s))) (trace (run deps (finish_batch res (handle_records deps rest ?s1)) inps))
          = trace s @ [EvExtract (Data r) ok err] \<and>
        list_all (src_stamped deps)
          (drop (Suc (length (trace s))) (trace (run deps (finish_batch res (handle_records deps rest ?s1)) inps)))"
    for rest res inps
  proof -
    let ?s2 = "handle_records deps rest ?s1"
    let ?s3 = "finish_batch res ?s2"
    let ?s4 = "run deps ?s3 inps"
    from off_records[OF p1, of deps rest]
    obtain e2 where a: "Parse_Time (stream ?s2) = False" "tg ?s2 = tg ?s1"
        "trace ?s2 = trace ?s1 @ e2" "list_all (src_stamped deps) e2"
      by blast
    from off_finish[of res ?s2 deps]
    obtain e3 where b: "Parse_Time (stream ?s3) = False" "tg ?s3 = tg ?s2"
        "trace ?s3 = trace ?s2 @ e3" "list_all (src_stamped deps) e3"
      using a by auto
    from off_run[OF b(1), of deps inps]
    obtain e4 where c: "Parse_Time (stream ?s4) = False" "tg ?s4 = tg ?s3"
        "trace ?s4 = trace ?s3 @ e4" "list_all (src_stamped deps) e4"
      by blast
    have tr: "trace ?s4 = (trace s @ [EvExtract (Data r) ok err]) @ (tail @ e2 @ e3 @ e4)"
      using a b c t1 by simp
    have len: "Suc (length (trace s)) = length (trace s @ [EvExtract (Data r) ok err])"
      by simp
    have "take (Suc (length (trace s))) (trace ?s4) = trace s @ [EvExtract (Data r) ok err]"
      unfolding tr len by simp
    moreover have "drop (Suc (length (trace s))) (trace ?s4) = tail @ e2 @ e3 @ e4"
      unfolding tr len by simp
    ultimately show ?thesis
      using a b c g1 st by simp
  qed
  show ?thesis
    using p1 g1 t1 later unfolding tail_def ent_def by simp
qed

theorem time_parsing_stays_off_witness:
  "Parse_Time (stream ex_fetching) = True \<and>
   Extract ex_deps (tg ex_fetching) (Data (ex_record ''106'' [])) = ((), Time 7000000000, False, False) \<and>
   Parse_Time (stream (handle_record ex_deps (ex_record ''106'' []) ex_fetching)) = False \<and>
   (\<forall>rest res inps.
        Parse_Time (stream (run ex_deps
            (finish_batch res (handle_records ex_deps rest
               (handle_record ex_deps (ex_record ''106'' []) ex_fetching))) inps)) = False \<and>
        list_all (src_stamped ex_deps)
          (drop (Suc (length (trace ex_fetching))) (trace (run ex_deps
            (finish_batch res (handle_records ex_deps rest
               (handle_record ex_deps (ex_record ''106'' []) ex_fetching))) inps))))"
proof -
  have a: "Parse_Time (stream ex_fetching) = True" by (simp add: ex_fetching_def ex_stream_def)
  have b: "Extract ex_deps (tg ex_fetching) (Data (ex_record ''106'' []))
      = ((), Time 7000000000, False, False)"
    by (simp add: ex_deps_def ex_record_def)
  have c: "\<not> False \<or> False" by simp
  show ?thesis using a b time_parsing_stays_off[OF a b c] by blast
qed
section \<open>The metrics reporter at a tick\<close>

text \<open>
  C10 does not hold of the code. For a stream with a positive metrics interval all of whose
  discovered shards are closed, no shard goroutine is spawned, \<open>metricsTrackers\<close> stays
  empty, and the reporter's tick divides the summed lag by \<open>int64(0)\<close>: the run-time panic
  "integer divide by zero".
\<close>

theorem report_tick_all_closed_panics:
  assumes "0 < Metrics_Interval strm" and "list_all shard_closed shards"
  shows "spawned_trackers strm shards = [] \<and>
         report_tick strm shards (spawned_trackers strm shards) = Inl IntegerDivideByZero"
proof -
  have "filter (\<lambda>sh. \<not> shard_closed sh) shards = []"
    using assms(2) by (induction shards) auto
  then show ?thesis by (simp add: spawned_trackers_def report_tick_def)
qed

theorem report_tick_all_closed_panics_witness:
  "0 < Metrics_Interval ex_stream \<and> list_all shard_closed [ex_closed_shard] \<and>
   spawned_trackers ex_stream [ex_closed_shard] = [] \<and>
   report_tick ex_stream [ex_closed_shard] (spawned_trackers ex_stream [ex_closed_shard])
     = Inl IntegerDivideByZero"
proof -
  have a: "0 < Metrics_Interval ex_stream" by (simp add: ex_stream_def)
  have b: "list_all shard_closed [ex_closed_shard]"
    by (simp add: shard_closed_def ex_closed_shard_def)
  show ?thesis using a b report_tick_all_closed_panics[OF a b] by blast
qed

end
